theory Spec2Isabelle
  imports Main
begin

section \<open>JavaScript strings\<close>

text \<open>
  A JavaScript string is modelled as a \<^typ>\<open>string\<close>: a list of 8-bit characters, one per
  code unit, so the model covers the strings whose code units are below 256. In that range
  the line terminators of the regular expression dot are LF and CR, and the white space of
  \<^verbatim>\<open>\s\<close> and of \<^verbatim>\<open>trim\<close> is TAB, LF, VT, FF, CR, SPACE and NBSP.
\<close>

definition isLineTerminator :: "char \<Rightarrow> bool" where
  "isLineTerminator c = (c = CHR 0x0A \<or> c = CHR 0x0D)"

definition isWhiteSpace :: "char \<Rightarrow> bool" where
  "isWhiteSpace c =
     (c = CHR 0x09 \<or> c = CHR 0x0A \<or> c = CHR 0x0B \<or> c = CHR 0x0C \<or> c = CHR 0x0D
      \<or> c = CHR 0x20 \<or> c = CHR 0xA0)"

text \<open>\<^verbatim>\<open>s.split(sep)\<close> for a one-character separator: the empty string gives one empty piece.\<close>

fun split_on :: "char \<Rightarrow> string \<Rightarrow> string list" where
  "split_on sep [] = [[]]"
| "split_on sep (c # cs) =
     (if c = sep then [] # split_on sep cs
      else (case split_on sep cs of
              [] \<Rightarrow> [[c]]
            | w # ws \<Rightarrow> (c # w) # ws))"

text \<open>\<^verbatim>\<open>xs.join(sep)\<close>.\<close>

fun join :: "string \<Rightarrow> string list \<Rightarrow> string" where
  "join sep [] = []"
| "join sep [x] = x"
| "join sep (x # y # ys) = x @ sep @ join sep (y # ys)"

text \<open>\<^verbatim>\<open>s.trim()\<close>.\<close>

definition trim :: "string \<Rightarrow> string" where
  "trim s = rev (dropWhile isWhiteSpace (rev (dropWhile isWhiteSpace s)))"

text \<open>\<^verbatim>\<open>s.indexOf(pat)\<close>: the first position where \<open>pat\<close> starts, or \<open>-1\<close>.\<close>

fun startsWith :: "string \<Rightarrow> string \<Rightarrow> bool" where
  "startsWith s [] = True"
| "startsWith [] (p # ps) = False"
| "startsWith (c # cs) (p # ps) = (c = p \<and> startsWith cs ps)"

fun indexOf_from :: "nat \<Rightarrow> string \<Rightarrow> string \<Rightarrow> int" where
  "indexOf_from i [] pat = (if pat = [] then int i else - 1)"
| "indexOf_from i (c # cs) pat =
     (if startsWith (c # cs) pat then int i else indexOf_from (Suc i) cs pat)"

definition indexOf :: "string \<Rightarrow> string \<Rightarrow> int" where
  "indexOf s pat = indexOf_from 0 s pat"

text \<open>Truthiness of an optional string, boolean or array argument.\<close>

fun truthy_string :: "string option \<Rightarrow> bool" where
  "truthy_string None = False"
| "truthy_string (Some s) = (s \<noteq> [])"

fun truthy_bool :: "bool option \<Rightarrow> bool" where
  "truthy_bool None = False"
| "truthy_bool (Some b) = b"

fun truthy_array :: "'a list option \<Rightarrow> bool" where
  "truthy_array None = False"
| "truthy_array (Some xs) = True"

section \<open>Deferred results\<close>

text \<open>
  A deferred of the promise library starts pending and is settled by the first call of
  \<^verbatim>\<open>resolve\<close> or \<^verbatim>\<open>reject\<close>; later calls leave it as it is.
\<close>

datatype ('a, 'e) promise = Pending | Fulfilled 'a | Rejected 'e

fun resolve :: "'a \<Rightarrow> ('a, 'e) promise \<Rightarrow> ('a, 'e) promise" where
  "resolve v Pending = Fulfilled v"
| "resolve v p = p"

fun reject :: "'e \<Rightarrow> ('a, 'e) promise \<Rightarrow> ('a, 'e) promise" where
  "reject e Pending = Rejected e"
| "reject e p = p"

text \<open>
  The values the module rejects with: a message string, the raw error of the spawn, or the
  object \<^verbatim>\<open>{ error: code, output: outBuffer }\<close> of a failed creation (the code is
  \<open>None\<close> for \<^verbatim>\<open>null\<close>, when a signal ended the process).
\<close>

datatype 'x reason =
    Message string
  | SpawnError 'x
  | ExitFailure "int option" string

definition NotACordovaProject :: "'x reason" where
  "NotACordovaProject = Message ''The selected path is not a Cordova application.''"

definition NotImplemented :: "'x reason" where
  "NotImplemented = Message ''Not yet implemented.''"

section \<open>The host\<close>

text \<open>
  What the module reads from its host: \<^verbatim>\<open>process.platform\<close>,
  \<^verbatim>\<open>process.cwd()\<close>, \<^verbatim>\<open>path.join\<close> and the outcome of \<^verbatim>\<open>fs.stat\<close> on a path.
  The environment variables are handed to the child unread and are left out.
\<close>

datatype stat_outcome = StatError | Stats

record host =
  platform :: string
  cwd :: string
  path_join :: "string \<Rightarrow> string \<Rightarrow> string"
  fs_stat :: "string \<Rightarrow> stat_outcome"

text \<open>\<^verbatim>\<open>toUpperCase\<close> on the letters a to z.\<close>

definition toUpperChar :: "char \<Rightarrow> char" where
  "toUpperChar c =
     (if 97 \<le> (of_char c :: nat) \<and> (of_char c :: nat) \<le> 122
      then char_of ((of_char c :: nat) - 32) else c)"

definition isWindows :: "('h host_scheme) \<Rightarrow> bool" where
  "isWindows h = (map toUpperChar (take 3 (platform h)) = ''WIN'')"

section \<open>The project handle\<close>

record CordovaProject =
  path :: string

definition new_CordovaProject :: "string \<Rightarrow> CordovaProject" where
  "new_CordovaProject p = \<lparr> path = p \<rparr>"

text \<open>
  \<^verbatim>\<open>open\<close>: the callback of \<^verbatim>\<open>fs.stat\<close> rejects when there is an error and then
  goes on to the call of \<^verbatim>\<open>resolve\<close> in either case.
\<close>

definition open_callback ::
    "string \<Rightarrow> stat_outcome \<Rightarrow> (CordovaProject, 'x reason) promise
       \<Rightarrow> (CordovaProject, 'x reason) promise" where
  "open_callback directoryName err result =
     (let result1 = (if err = StatError then reject NotACordovaProject result else result)
      in resolve (new_CordovaProject directoryName) result1)"

definition open_project ::
    "('h host_scheme) \<Rightarrow> string \<Rightarrow> (CordovaProject, 'x reason) promise" where
  "open_project h directoryName =
     (let configxml = path_join h directoryName ''config.xml''
      in open_callback directoryName (fs_stat h configxml) Pending)"

text \<open>\<^verbatim>\<open>checkForUpdates\<close>.\<close>

definition checkForUpdates ::
    "CordovaProject \<Rightarrow> ((string \<times> string) list, 'x reason) promise" where
  "checkForUpdates this = reject NotImplemented Pending"


section \<open>Child processes\<close>

text \<open>
  A child process is seen through the events it emits: \<^verbatim>\<open>'error'\<close> with the raw error,
  \<^verbatim>\<open>'data'\<close> on its standard output, and \<^verbatim>\<open>'exit'\<close> with the exit code and the
  signal; the code is \<^verbatim>\<open>null\<close> (\<open>None\<close>) when a signal ended the process. A listener that
  throws ends the run with the exception.
\<close>

datatype 'x child_event =
    OnError 'x
  | OnData string
  | OnExit "int option" "string option"

datatype js_exception = TypeError

fun emit ::
    "('x child_event \<Rightarrow> 's \<Rightarrow> js_exception + 's) \<Rightarrow> 'x child_event list \<Rightarrow> 's
       \<Rightarrow> js_exception + 's" where
  "emit listener [] s = Inr s"
| "emit listener (ev # evs) s =
     (case listener ev s of
        Inl exn \<Rightarrow> Inl exn
      | Inr s' \<Rightarrow> emit listener evs s')"

record spawn_call =
  program :: string
  arguments :: "string list"
  spawn_cwd :: string

definition safeSpawn :: "('h host_scheme) \<Rightarrow> string \<Rightarrow> string list \<Rightarrow> string \<Rightarrow> spawn_call" where
  "safeSpawn h commandLine args dir =
     (if isWindows h
      then \<lparr> program = ''cmd'', arguments = ''/s'' # ''/c'' # commandLine # args,
             spawn_cwd = dir \<rparr>
      else \<lparr> program = commandLine, arguments = args, spawn_cwd = dir \<rparr>)"

text \<open>\<^verbatim>\<open>s.split(/\s+/g)\<close>: the pieces between the maximal runs of white space.\<close>

function split_ws :: "string \<Rightarrow> string list" where
  "split_ws [] = [[]]"
| "split_ws (c # cs) =
     (if isWhiteSpace c then [] # split_ws (dropWhile isWhiteSpace cs)
      else (case split_ws cs of
              [] \<Rightarrow> [[c]]
            | w # ws \<Rightarrow> (c # w) # ws))"
  by pat_completeness auto
termination
  by (relation "measure length") (auto simp: less_Suc_eq_le length_dropWhile_le)

text \<open>
  The call of \<^verbatim>\<open>safeSpawn\<close> that both execution primitives make: the first word is the
  program (\<^verbatim>\<open>words.shift()\<close>), the rest are its arguments, and the working directory is
  the given one when it is truthy. \<^verbatim>\<open>split\<close> gives at least one word.
\<close>

definition wrapAction_spawn ::
    "('h host_scheme) \<Rightarrow> string \<Rightarrow> string option \<Rightarrow> spawn_call option" where
  "wrapAction_spawn h commandLine workingDirectory =
     (case split_ws commandLine of
        [] \<Rightarrow> None
      | command # words \<Rightarrow>
          Some (safeSpawn h command words
                  (if truthy_string workingDirectory then the workingDirectory else cwd h)))"

record CordovaActionResult =
  "output" :: string
  statusCode :: "int option"

text \<open>The listeners of \<^verbatim>\<open>wrapVoidAction\<close>, on the pair of \<^verbatim>\<open>outBuffer\<close> and the deferred.\<close>

fun wrapVoidAction_on ::
    "'x child_event \<Rightarrow> string \<times> (CordovaActionResult, 'x reason) promise
       \<Rightarrow> js_exception + string \<times> (CordovaActionResult, 'x reason) promise" where
  "wrapVoidAction_on (OnError e) (outBuffer, result) =
     Inr (outBuffer, reject (SpawnError e) result)"
| "wrapVoidAction_on (OnData text) (outBuffer, result) =
     Inr (outBuffer @ text, result)"
| "wrapVoidAction_on (OnExit code signal) (outBuffer, result) =
     (if code = Some 0
      then Inr (outBuffer, resolve \<lparr> output = outBuffer, statusCode = Some 0 \<rparr> result)
      else Inr (outBuffer, resolve \<lparr> output = outBuffer, statusCode = code \<rparr> result))"

definition wrapVoidAction ::
    "'x child_event list \<Rightarrow> js_exception + (CordovaActionResult, 'x reason) promise" where
  "wrapVoidAction events = map_sum id snd (emit wrapVoidAction_on events ([], Pending))"

text \<open>
  The listeners of \<^verbatim>\<open>wrapStringAction\<close>. Its exit listener reads \<^verbatim>\<open>e.code\<close> of its first
  argument, the exit code: that is \<^verbatim>\<open>undefined\<close> on a number, so the comparison with 0 is
  false and the second branch runs, and it throws on \<^verbatim>\<open>null\<close>.
\<close>

fun wrapStringAction_on ::
    "'x child_event \<Rightarrow> string \<times> (string, 'x reason) promise
       \<Rightarrow> js_exception + string \<times> (string, 'x reason) promise" where
  "wrapStringAction_on (OnError e) (outBuffer, result) =
     Inr (outBuffer, reject (SpawnError e) result)"
| "wrapStringAction_on (OnData text) (outBuffer, result) =
     Inr (outBuffer @ text, result)"
| "wrapStringAction_on (OnExit None signal) (outBuffer, result) = Inl TypeError"
| "wrapStringAction_on (OnExit (Some n) signal) (outBuffer, result) =
     Inr (outBuffer, resolve outBuffer result)"

definition wrapStringAction ::
    "'x child_event list \<Rightarrow> js_exception + (string, 'x reason) promise" where
  "wrapStringAction events = map_sum id snd (emit wrapStringAction_on events ([], Pending))"

section \<open>Creating a project\<close>

definition create_args :: "string \<Rightarrow> string option \<Rightarrow> string option \<Rightarrow> string list" where
  "create_args name ident title =
     (let args = [''create'', name];
          args = (if truthy_string ident then args @ [the ident] else args);
          args = (if truthy_string title then args @ [the title] else args)
      in args)"

definition create_spawn ::
    "('h host_scheme) \<Rightarrow> string \<Rightarrow> string option \<Rightarrow> string option \<Rightarrow> spawn_call" where
  "create_spawn h name ident title =
     safeSpawn h ''cordova'' (create_args name ident title) (cwd h)"

fun create_on ::
    "('h host_scheme) \<Rightarrow> string \<Rightarrow> 'x child_event
       \<Rightarrow> string \<times> (CordovaProject, 'x reason) promise
       \<Rightarrow> js_exception + string \<times> (CordovaProject, 'x reason) promise" where
  "create_on h name (OnError e) (outBuffer, result) =
     Inr (outBuffer, reject (SpawnError e) result)"
| "create_on h name (OnData text) (outBuffer, result) =
     Inr (outBuffer @ text, result)"
| "create_on h name (OnExit code signal) (outBuffer, result) =
     (if code = Some 0
      then (let dir = path_join h ''.'' name
            in case open_project h dir of
                 Fulfilled proj \<Rightarrow> Inr (outBuffer, resolve proj result)
               | Rejected err \<Rightarrow> Inr (outBuffer, reject err result)
               | Pending \<Rightarrow> Inr (outBuffer, result))
      else Inr (outBuffer, reject (ExitFailure code outBuffer) result))"

definition create ::
    "('h host_scheme) \<Rightarrow> string \<Rightarrow> 'x child_event list
       \<Rightarrow> js_exception + (CordovaProject, 'x reason) promise" where
  "create h name events = map_sum id snd (emit (create_on h name) events ([], Pending))"


section \<open>Command lines\<close>

record PluginAddOptions =
  searchPaths :: "string list option"
  noRegistry :: "bool option"
  link :: "bool option"
  save :: "bool option"
  shrinkwrap :: "bool option"
  experimentalBrowserify :: "bool option"

record ComponentRemoveOptions =
  save :: "bool option"

record PlatformAddOptions =
  useGit :: "bool option"
  save :: "bool option"
  link :: "bool option"

definition addPlugin_cmd ::
    "('h host_scheme) \<Rightarrow> string \<Rightarrow> PluginAddOptions option \<Rightarrow> string" where
  \<open>addPlugin_cmd h searchSpec options =
     (let cmd = ''cordova plugin add '' @ searchSpec
      in case options of
           None \<Rightarrow> cmd
         | Some opts \<Rightarrow>
             (let cmd = (if truthy_array (searchPaths opts)
                         then cmd @ '' --searchpath "''
                                @ join (if isWindows h then '';'' else '':'')
                                    (the (searchPaths opts))
                         else cmd);
                  cmd = (if truthy_bool (noRegistry opts) then cmd @ '' --noregistry'' else cmd);
                  cmd = (if truthy_bool (PluginAddOptions.link opts)
                         then cmd @ '' --link'' else cmd);
                  cmd = (if truthy_bool (PluginAddOptions.save opts)
                         then cmd @ '' --save'' else cmd);
                  cmd = (if truthy_bool (shrinkwrap opts) then cmd @ '' --shrinkwrap'' else cmd);
                  cmd = (if truthy_bool (experimentalBrowserify opts)
                         then cmd @ '' --browserify'' else cmd)
              in cmd))\<close>

definition removePlugin_cmd :: "string \<Rightarrow> ComponentRemoveOptions option \<Rightarrow> string" where
  "removePlugin_cmd pluginId options =
     (let cmd = ''cordova plugin remove '' @ pluginId
      in case options of
           None \<Rightarrow> cmd
         | Some opts \<Rightarrow>
             (if truthy_bool (ComponentRemoveOptions.save opts) then cmd @ '' --save'' else cmd))"

definition addPlatform_cmd :: "string \<Rightarrow> PlatformAddOptions option \<Rightarrow> string" where
  "addPlatform_cmd searchSpec options =
     (let cmd = ''cordova platform add '' @ searchSpec
      in case options of
           None \<Rightarrow> cmd
         | Some opts \<Rightarrow>
             (let cmd = (if truthy_bool (useGit opts) then cmd @ '' --usegit'' else cmd);
                  cmd = (if truthy_bool (PlatformAddOptions.save opts)
                         then cmd @ '' --save'' else cmd);
                  cmd = (if truthy_bool (PlatformAddOptions.link opts)
                         then cmd @ '' --link'' else cmd)
              in cmd))"

definition removePlatform_cmd :: "string \<Rightarrow> ComponentRemoveOptions option \<Rightarrow> string" where
  "removePlatform_cmd platformName options =
     (let cmd = ''cordova platform remove '' @ platformName
      in case options of
           None \<Rightarrow> cmd
         | Some opts \<Rightarrow>
             (if truthy_bool (ComponentRemoveOptions.save opts) then cmd @ '' --save'' else cmd))"

definition update_cmd :: "string option \<Rightarrow> PlatformAddOptions option \<Rightarrow> string" where
  "update_cmd platformName options =
     (let cmd = ''cordova platform update'';
          cmd = (if truthy_string platformName then cmd @ '' '' @ the platformName else cmd)
      in case options of
           None \<Rightarrow> cmd
         | Some opts \<Rightarrow>
             (let cmd = (if truthy_bool (useGit opts) then cmd @ '' --usegit'' else cmd);
                  cmd = (if truthy_bool (PlatformAddOptions.save opts)
                         then cmd @ '' --save'' else cmd)
              in cmd))"

text \<open>
  Each of the five operations hands its command line to \<^verbatim>\<open>wrapVoidAction\<close> with the
  directory of the handle; this is the child it spawns.
\<close>

definition addPlugin_spawn ::
    "('h host_scheme) \<Rightarrow> CordovaProject \<Rightarrow> string \<Rightarrow> PluginAddOptions option
       \<Rightarrow> spawn_call option" where
  "addPlugin_spawn h this searchSpec options =
     wrapAction_spawn h (addPlugin_cmd h searchSpec options) (Some (path this))"


section \<open>Regular expressions\<close>

text \<open>
  The two patterns of the module are built from a literal, the lazy group \<^verbatim>\<open>(.+?)\<close> and
  the end of input \<^verbatim>\<open>$\<close>, each written as a backtracking matcher that takes the rest of
  the pattern as a continuation. The lazy group takes one character that is no line
  terminator, tries the continuation, and takes one more character when that fails.
  \<^verbatim>\<open>match\<close> tries the pattern at each start position from the left.
\<close>

fun lit :: "string \<Rightarrow> (string \<Rightarrow> 'r option) \<Rightarrow> string \<Rightarrow> 'r option" where
  "lit [] k inp = k inp"
| "lit (p # ps) k [] = None"
| "lit (p # ps) k (c # cs) = (if c = p then lit ps k cs else None)"

fun lazy_group ::
    "(string \<Rightarrow> string \<Rightarrow> 'r option) \<Rightarrow> string \<Rightarrow> string \<Rightarrow> 'r option" where
  "lazy_group k captured [] = None"
| "lazy_group k captured (c # cs) =
     (if isLineTerminator c then None
      else (case k (captured @ [c]) cs of
              Some r \<Rightarrow> Some r
            | None \<Rightarrow> lazy_group k (captured @ [c]) cs))"

definition at_end :: "'r \<Rightarrow> string \<Rightarrow> 'r option" where
  "at_end r inp = (if inp = [] then Some r else None)"

fun search :: "(string \<Rightarrow> 'r option) \<Rightarrow> string \<Rightarrow> 'r option" where
  "search m [] = m []"
| "search m (c # cs) =
     (case m (c # cs) of
        Some r \<Rightarrow> Some r
      | None \<Rightarrow> search m cs)"

text \<open>\<^verbatim>\<open>item.match(/(.+?) (.+?) "(.+?)"$/)\<close>, giving the three groups.\<close>

definition plugin_match :: "string \<Rightarrow> (string \<times> string \<times> string) option" where
  \<open>plugin_match =
     search (lazy_group (\<lambda>g1. lit '' ''
              (lazy_group (\<lambda>g2. lit '' "''
                 (lazy_group (\<lambda>g3. lit ''"'' (at_end (g1, g2, g3))) [])) [])) [])\<close>

text \<open>\<^verbatim>\<open>platformPair.match(/(.+?) (.+?)$/)\<close>, giving the two groups.\<close>

definition platform_match :: "string \<Rightarrow> (string \<times> string) option" where
  "platform_match =
     search (lazy_group (\<lambda>g1. lit '' ''
              (lazy_group (\<lambda>g2. at_end (g1, g2)) [])) [])"

text \<open>\<^verbatim>\<open>line.match(/\S/g)\<close>: the characters that are no white space, \<^verbatim>\<open>null\<close> when none.\<close>

definition match_nonspace :: "string \<Rightarrow> string list option" where
  "match_nonspace line =
     (case filter (\<lambda>c. \<not> isWhiteSpace c) line of
        [] \<Rightarrow> None
      | c # cs \<Rightarrow> Some (map (\<lambda>x. [x]) (c # cs)))"

section \<open>Parsing the output of the tool\<close>

record CordovaPluginInfo =
  id' :: string
  version :: string
  name' :: string

record CordovaPlatformInfo =
  id' :: string
  version :: string

record CordovaProjectInfo =
  config :: string
  pluginNames :: "string list"

text \<open>The callback of \<^verbatim>\<open>getPlugins\<close> on the output of \<^verbatim>\<open>cordova plugin list\<close>.\<close>

definition getPlugins_item :: "CordovaPluginInfo list \<Rightarrow> string \<Rightarrow> CordovaPluginInfo list" where
  "getPlugins_item plugins item =
     (case plugin_match item of
        Some (m1, m2, m3) \<Rightarrow>
          plugins @ [\<lparr> CordovaPluginInfo.id' = m1, CordovaPluginInfo.version = m2, name' = m3 \<rparr>]
      | None \<Rightarrow> plugins)"

definition getPlugins_parse :: "string \<Rightarrow> CordovaPluginInfo list" where
  "getPlugins_parse result = foldl getPlugins_item [] (split_on (CHR 0x0A) result)"

text \<open>The callback of \<^verbatim>\<open>getPlatforms\<close> on the output of \<^verbatim>\<open>cordova platform list\<close>.\<close>

definition getPlatforms_pair ::
    "CordovaPlatformInfo list \<Rightarrow> string \<Rightarrow> CordovaPlatformInfo list" where
  "getPlatforms_pair installed platformPair =
     (case platform_match (trim platformPair) of
        Some (m1, m2) \<Rightarrow>
          installed @ [\<lparr> CordovaPlatformInfo.id' = m1, CordovaPlatformInfo.version = m2 \<rparr>]
      | None \<Rightarrow> installed)"

definition getPlatforms_line ::
    "CordovaPlatformInfo list \<Rightarrow> string \<Rightarrow> CordovaPlatformInfo list" where
  "getPlatforms_line installed line =
     (let searchStr = ''Installed platforms: ''
      in if indexOf line searchStr = 0
         then (let rest = drop (length searchStr) line;
                   platformPairs = split_on (CHR '','') rest
               in foldl getPlatforms_pair installed platformPairs)
         else installed)"

definition getPlatforms_parse :: "string \<Rightarrow> CordovaPlatformInfo list" where
  "getPlatforms_parse out = foldl getPlatforms_line [] (split_on (CHR 0x0A) out)"

text \<open>
  The callback of \<^verbatim>\<open>getInfo\<close> on the output of \<^verbatim>\<open>cordova info\<close>: two loops over the
  lines that share the index \<open>i\<close>. The first loop leaves \<open>i\<close> at the line it stopped on, or
  at the number of lines when it found no closing tag.
\<close>

function getInfo_loop1 :: "string list \<Rightarrow> nat \<Rightarrow> string \<Rightarrow> nat \<times> string" where
  "getInfo_loop1 lines i xml =
     (if i < length lines
      then (let xml = xml @ lines ! i
            in if indexOf (lines ! i) ''</widget>'' > - 1 then (i, xml)
               else getInfo_loop1 lines (i + 1) xml)
      else (i, xml))"
  by pat_completeness auto
termination
  by (relation "measure (\<lambda>(lines, i, xml). length lines - i)") auto

function getInfo_loop2 ::
    "string list \<Rightarrow> nat \<Rightarrow> bool \<Rightarrow> bool \<Rightarrow> string list \<Rightarrow> string list" where
  "getInfo_loop2 lines i lookingForPluginsColon enumeratingPlugins plugins =
     (if i < length lines
      then (if lookingForPluginsColon
            then (if indexOf (lines ! i) ''Plugins:'' > - 1
                  then getInfo_loop2 lines (i + 1) False True plugins
                  else getInfo_loop2 lines (i + 1) lookingForPluginsColon enumeratingPlugins
                         plugins)
            else if enumeratingPlugins
            then (if match_nonspace (lines ! i) \<noteq> None
                  then getInfo_loop2 lines (i + 1) lookingForPluginsColon enumeratingPlugins
                         (plugins @ [lines ! i])
                  else getInfo_loop2 lines (i + 1) lookingForPluginsColon enumeratingPlugins
                         plugins)
            else getInfo_loop2 lines (i + 1) lookingForPluginsColon enumeratingPlugins plugins)
      else plugins)"
  by pat_completeness auto
termination
  by (relation "measure (\<lambda>(lines, i, l, e, plugins). length lines - i)") auto

declare getInfo_loop1.simps [simp del] getInfo_loop2.simps [simp del]

definition getInfo_parse :: "string \<Rightarrow> CordovaProjectInfo" where
  "getInfo_parse result =
     (let lines = split_on (CHR 0x0A) result;
          (i, xml) = getInfo_loop1 lines 0 [];
          plugins = getInfo_loop2 lines i True False []
      in \<lparr> config = xml, pluginNames = plugins \<rparr>)"



section \<open>Notions of the specification\<close>

text \<open>
  The words of the specification about lines: a line contains a text, a line is not blank,
  the lines consumed for the XML fragment (those before the first line with the closing tag,
  and that line), and the lines after the first line with \<^verbatim>\<open>Plugins:\<close> at or after the
  line with the closing tag.
\<close>

definition contains :: "string \<Rightarrow> string \<Rightarrow> bool" where
  "contains s pat = (indexOf s pat > - 1)"

definition nonBlank :: "string \<Rightarrow> bool" where
  "nonBlank line = (match_nonspace line \<noteq> None)"

definition consumed_lines :: "string list \<Rightarrow> string list" where
  "consumed_lines lines =
     takeWhile (\<lambda>l. \<not> contains l ''</widget>'') lines
       @ take 1 (dropWhile (\<lambda>l. \<not> contains l ''</widget>'') lines)"

definition plugin_section :: "string list \<Rightarrow> string list" where
  "plugin_section lines =
     drop 1 (dropWhile (\<lambda>l. \<not> contains l ''Plugins:'')
               (dropWhile (\<lambda>l. \<not> contains l ''</widget>'') lines))"

text \<open>The record a matching line, or a matching entry of the platform line, stands for.\<close>

definition plugin_of_line :: "string \<Rightarrow> CordovaPluginInfo option" where
  "plugin_of_line line =
     map_option
       (\<lambda>(m1, m2, m3).
          \<lparr> CordovaPluginInfo.id' = m1, CordovaPluginInfo.version = m2, name' = m3 \<rparr>)
       (plugin_match line)"

definition platform_of_entry :: "string \<Rightarrow> CordovaPlatformInfo option" where
  "platform_of_entry entry =
     map_option (\<lambda>(m1, m2). \<lparr> CordovaPlatformInfo.id' = m1, CordovaPlatformInfo.version = m2 \<rparr>)
       (platform_match entry)"

text \<open>The trimmed entries of a platform line: what follows the prefix, split on commas.\<close>

definition platform_entries :: "string \<Rightarrow> string list" where
  "platform_entries line =
     map trim (split_on (CHR '','') (drop (length ''Installed platforms: '') line))"

text \<open>
  An option is requested when the options object is there and the field is truthy. A table
  of switches and flags stands for its flags that are switched on, in the order of the
  table; a command line with flags is the command followed by each flag after a space.
\<close>

definition requested :: "('o \<Rightarrow> bool option) \<Rightarrow> 'o option \<Rightarrow> bool" where
  "requested field options =
     (case options of None \<Rightarrow> False | Some opts \<Rightarrow> truthy_bool (field opts))"

definition flags :: "(bool \<times> string) list \<Rightarrow> string list" where
  "flags table = map snd (filter fst table)"

definition with_flags :: "string \<Rightarrow> string list \<Rightarrow> string" where
  "with_flags cmd fs = cmd @ concat (map (\<lambda>f. '' '' @ f) fs)"

section \<open>Sample hosts\<close>

text \<open>
  Two hosts for the concrete runs below: one whose disk has no file at all, one where every
  path can be read. Both join paths with a slash.
\<close>

definition join_slash :: "string \<Rightarrow> string \<Rightarrow> string" where
  "join_slash a b = a @ ''/'' @ b"

definition no_file :: "string \<Rightarrow> stat_outcome" where
  "no_file p = StatError"

definition every_file :: "string \<Rightarrow> stat_outcome" where
  "every_file p = Stats"

definition linux_empty :: host where
  "linux_empty =
     \<lparr> platform = ''linux'', cwd = ''/home'', path_join = join_slash, fs_stat = no_file \<rparr>"

definition linux_full :: host where
  "linux_full =
     \<lparr> platform = ''linux'', cwd = ''/home'', path_join = join_slash, fs_stat = every_file \<rparr>"

definition win32_full :: host where
  "win32_full =
     \<lparr> platform = ''win32'', cwd = ''C:/home'', path_join = join_slash, fs_stat = every_file \<rparr>"

definition sample_paths :: PluginAddOptions where
  "sample_paths =
     \<lparr> searchPaths = Some [''a'', ''b''], noRegistry = None, link = None, save = None,
       shrinkwrap = None, experimentalBrowserify = None \<rparr>"

section \<open>Opening a directory\<close>

text \<open>
  With an error from \<^verbatim>\<open>fs.stat\<close> the callback makes both calls, \<^verbatim>\<open>reject\<close> first;
  without one it makes the call of \<^verbatim>\<open>resolve\<close> only.
\<close>

lemma open_callback_falls_through:
  "open_callback d StatError result
     = resolve (new_CordovaProject d) (reject NotACordovaProject result)"
  "open_callback d Stats result = resolve (new_CordovaProject d) result"
  by (simp_all add: open_callback_def)

lemma open_project_with_descriptor:
  "fs_stat h (path_join h d ''config.xml'') = Stats
     \<Longrightarrow> open_project h d = Fulfilled (new_CordovaProject d)"
  by (simp add: open_project_def open_callback_def)

text \<open>
  Claim C1. For every directory whose descriptor file \<^verbatim>\<open>config.xml\<close> is absent or
  inaccessible (\<^verbatim>\<open>fs.stat\<close> reports an error), \<^verbatim>\<open>open\<close> fails with the
  not-a-Cordova-project message and is not fulfilled: the promise has the one outcome
  "rejected", and no project handle is delivered. The source does call \<^verbatim>\<open>resolve\<close>
  after \<^verbatim>\<open>reject\<close>; the deferred, already settled, ignores it.
\<close>

theorem open_missing_descriptor_rejects:
  fixes h :: "'h host_scheme" and d :: string
  defines "outcome \<equiv> (open_project h d :: (CordovaProject, 'x reason) promise)"
  assumes "fs_stat h (path_join h d ''config.xml'') = StatError"
  shows "outcome = Rejected NotACordovaProject
         \<and> (\<forall>proj. outcome \<noteq> Fulfilled proj)
         \<and> outcome \<noteq> Pending"
  using assms by (simp add: open_project_def open_callback_def)

theorem open_missing_descriptor_rejects_witness:
  "fs_stat linux_empty (path_join linux_empty ''/tmp/empty'' ''config.xml'') = StatError
   \<and> open_project linux_empty ''/tmp/empty''
       = (Rejected NotACordovaProject :: (CordovaProject, unit reason) promise)"
proof -
  have absent:
    "fs_stat linux_empty (path_join linux_empty ''/tmp/empty'' ''config.xml'') = StatError"
    by (simp add: linux_empty_def no_file_def)
  show ?thesis
    using absent open_missing_descriptor_rejects [where ?'x = unit, OF absent] by simp
qed


section \<open>The execution primitives\<close>

lemma emit_data_void:
  "emit wrapVoidAction_on (map OnData chunks @ evs) (buf, p)
     = emit wrapVoidAction_on evs (buf @ concat chunks, p)"
  by (induction chunks arbitrary: buf) simp_all

lemma emit_data_string:
  "emit wrapStringAction_on (map OnData chunks @ evs) (buf, p)
     = emit wrapStringAction_on evs (buf @ concat chunks, p)"
  by (induction chunks arbitrary: buf) simp_all

lemma emit_data_create:
  "emit (create_on h nm) (map OnData chunks @ evs) (buf, p)
     = emit (create_on h nm) evs (buf @ concat chunks, p)"
  by (induction chunks arbitrary: buf) simp_all

text \<open>
  For a child that writes any chunks and then exits with a numeric code, zero or not, the
  void action is fulfilled with the accumulated output and that code, and the string action
  with the accumulated output; for a child that ends in an \<^verbatim>\<open>'error'\<close> event, both are
  rejected with the raw error.
\<close>

lemma exec_primitives_numeric_exit:
  fixes e :: 'x
  defines "exit \<equiv> (\<lambda>code sig. OnExit (Some code) sig :: 'x child_event)"
  shows
  "wrapVoidAction (map OnData chunks @ [exit code sig])
     = Inr (Fulfilled \<lparr> output = concat chunks, statusCode = Some code \<rparr>)
   \<and> wrapStringAction (map OnData chunks @ [exit code sig])
     = Inr (Fulfilled (concat chunks))
   \<and> wrapVoidAction (map OnData chunks @ [OnError e]) = Inr (Rejected (SpawnError e))
   \<and> wrapStringAction (map OnData chunks @ [OnError e]) = Inr (Rejected (SpawnError e))"
  by (simp add: assms wrapVoidAction_def wrapStringAction_def emit_data_void emit_data_string)

text \<open>
  The first settlement stands: whatever the child emits after its exit or its error, more
  output included, the result of the void action is the one settled then.
\<close>

lemma emit_void_settled:
  "p \<noteq> Pending \<Longrightarrow> \<exists>buf'. emit wrapVoidAction_on evs (buf, p) = Inr (buf', p)"
proof (induction evs arbitrary: buf)
  case Nil
  then show ?case by simp
next
  case (Cons ev evs)
  then show ?case
    by (cases ev; cases p) simp_all
qed

lemma wrapVoidAction_settled:
  "p \<noteq> Pending \<Longrightarrow> map_sum id snd (emit wrapVoidAction_on evs (buf, p)) = Inr p"
  using emit_void_settled [of p evs buf] by auto

lemma wrapVoidAction_exit_then_more:
  "wrapVoidAction (map OnData chunks @ OnExit (Some code) sig # later)
     = Inr (Fulfilled \<lparr> output = concat chunks, statusCode = Some code \<rparr>)"
  by (simp add: wrapVoidAction_def emit_data_void wrapVoidAction_settled)

lemma wrapVoidAction_error_then_more:
  "wrapVoidAction (map OnData chunks @ OnError e # later) = Inr (Rejected (SpawnError e))"
  by (simp add: wrapVoidAction_def emit_data_void wrapVoidAction_settled)

text \<open>
  When a signal ends the child the exit code is \<^verbatim>\<open>null\<close>. The void action resolves with
  that as its status code.
\<close>

lemma wrapVoidAction_signal_resolves:
  "wrapVoidAction (map OnData chunks @ [OnExit None sig])
     = Inr (Fulfilled \<lparr> output = concat chunks, statusCode = None \<rparr>)"
  by (simp add: wrapVoidAction_def emit_data_void)

text \<open>
  Claim C6, at a child ended by a signal. The claim has the string action resolve the
  accumulated output for every run of the child, whatever its exit code. For every child
  that writes chunks and is then ended by a signal, the exit listener of the string action
  throws on \<^verbatim>\<open>e.code\<close> and the promise is never settled; so it is for the child that
  writes \<^verbatim>\<open>out\<close> and is ended by \<^verbatim>\<open>SIGTERM\<close>, where the void action does resolve.
\<close>

theorem wrapStringAction_signal_exit_throws:
  "wrapStringAction (map OnData chunks @ [OnExit None sig]) = Inl TypeError
   \<and> wrapStringAction [OnData ''out'', OnExit None (Some ''SIGTERM'')]
       = (Inl TypeError :: js_exception + (string, unit reason) promise)
   \<and> wrapVoidAction [OnData ''out'', OnExit None (Some ''SIGTERM'')]
       = (Inr (Fulfilled \<lparr> output = ''out'', statusCode = None \<rparr>)
            :: js_exception + (CordovaActionResult, unit reason) promise)"
  by (simp add: wrapStringAction_def wrapVoidAction_def emit_data_string)

section \<open>Outcomes of create\<close>

text \<open>
  Claim C7, as stated, at a concrete run: the tool exits with code 0 but the new directory
  has no descriptor file. The call is neither fulfilled with a handle nor rejected with the
  exit code or a spawn error: it is rejected with the message of \<^verbatim>\<open>open\<close>.
\<close>

theorem create_exit_zero_without_descriptor:
  "create linux_empty ''app'' [OnData ''done'', OnExit (Some 0) None]
     = Inr (Rejected (Message ''The selected path is not a Cordova application.'')
              :: (CordovaProject, unit reason) promise)
   \<and> create linux_empty ''app'' [OnData ''done'', OnExit (Some 0) None]
     \<noteq> Inr (Fulfilled (new_CordovaProject (path_join linux_empty ''.'' ''app''))
              :: (CordovaProject, unit reason) promise)"
  by (simp add: create_def open_project_def open_callback_def linux_empty_def no_file_def
        NotACordovaProject_def)

text \<open>
  Claim C7, amended. \<^verbatim>\<open>create\<close> runs the tool (directly, off Windows) with the
  arguments \<^verbatim>\<open>create\<close>, the name, and the id and the title when they are truthy. On exit code 0 it opens the directory
  \<^verbatim>\<open>path.join('.', name)\<close>: it is fulfilled with the handle when the descriptor file is
  there and rejected with the message of \<^verbatim>\<open>open\<close> when it is not. On any other exit
  code it is rejected with that code and the captured output, and on an \<^verbatim>\<open>'error'\<close>
  event with the raw error.
\<close>

theorem create_outcomes:
  fixes e :: 'x and h :: "'h host_scheme"
  defines "exit0 \<equiv> (\<lambda>sig. OnExit (Some 0) sig :: 'x child_event)"
    and "exit \<equiv> (\<lambda>code sig. OnExit code sig :: 'x child_event)"
  shows
  "create_args nm ident title
     = ''create'' # nm # (if truthy_string ident then [the ident] else [])
         @ (if truthy_string title then [the title] else [])
   \<and> (\<not> isWindows h \<longrightarrow>
        create_spawn h nm ident title
          = \<lparr> program = ''cordova'', arguments = create_args nm ident title,
              spawn_cwd = cwd h \<rparr>)
   \<and> create h nm (map OnData chunks @ [exit0 sig])
     = Inr (case fs_stat h (path_join h (path_join h ''.'' nm) ''config.xml'') of
              Stats \<Rightarrow> Fulfilled (new_CordovaProject (path_join h ''.'' nm))
            | StatError \<Rightarrow> Rejected NotACordovaProject)
   \<and> (code \<noteq> Some 0 \<longrightarrow>
        create h nm (map OnData chunks @ [exit code sig])
          = Inr (Rejected (ExitFailure code (concat chunks))))
   \<and> create h nm (map OnData chunks @ [OnError e]) = Inr (Rejected (SpawnError e))"
  by (simp add: assms create_def create_args_def create_spawn_def safeSpawn_def
        emit_data_create open_project_def open_callback_def Let_def split: stat_outcome.split)

theorem create_outcomes_witness:
  "Some 1 \<noteq> Some (0 :: int)
   \<and> create_args ''app'' (Some ''org.example.app'') None = [''create'', ''app'', ''org.example.app'']
   \<and> create_spawn linux_full ''app'' (Some ''org.example.app'') None
       = \<lparr> program = ''cordova'', arguments = [''create'', ''app'', ''org.example.app''],
           spawn_cwd = ''/home'' \<rparr>
   \<and> create linux_full ''app'' [OnData ''ok'', OnExit (Some 0) None]
       = Inr (Fulfilled \<lparr> path = ''./app'' \<rparr> :: (CordovaProject, unit reason) promise)
   \<and> create linux_full ''app'' [OnData ''no'', OnData ''pe'', OnExit (Some 1) None]
       = Inr (Rejected (ExitFailure (Some 1) ''nope'') :: (CordovaProject, unit reason) promise)
   \<and> create linux_full ''app'' [OnData ''no'', OnData ''pe'', OnError ()]
       = Inr (Rejected (SpawnError ()) :: (CordovaProject, unit reason) promise)"
proof -
  have posix: "\<not> isWindows linux_full"
    by code_simp
  show ?thesis
    using posix
      create_outcomes [of "''app''" "Some ''org.example.app''" None linux_full
        "[''ok'']" None "Some 1" "()"]
      create_outcomes [of "''app''" None None linux_full "[''no'', ''pe'']" None "Some 1" "()"]
    by (simp add: linux_full_def every_file_def join_slash_def new_CordovaProject_def)
qed

section \<open>Checking for updates\<close>

text \<open>
  Claim C8. \<^verbatim>\<open>checkForUpdates\<close> fails with the not-implemented message for every
  handle, whatever its state, and is never fulfilled with a value.
\<close>

theorem checkForUpdates_always_rejects:
  "checkForUpdates this = Rejected NotImplemented
   \<and> checkForUpdates this \<noteq> (Fulfilled v :: ((string \<times> string) list, 'x reason) promise)"
  by (simp add: checkForUpdates_def)

section \<open>Facts about strings\<close>

lemma startsWith_Nil [simp]: "startsWith [] pat = (pat = [])"
  by (cases pat) auto

lemma startsWith_iff: "startsWith s pat \<longleftrightarrow> (\<exists>rest. s = pat @ rest)"
  by (induction s pat rule: startsWith.induct) auto

lemma indexOf_from_ge: "indexOf_from i s pat = - 1 \<or> int i \<le> indexOf_from i s pat"
  by (induction i s pat rule: indexOf_from.induct) auto

lemma indexOf_zero_iff: "indexOf s pat = 0 \<longleftrightarrow> startsWith s pat"
proof (cases s)
  case Nil
  then show ?thesis by (simp add: indexOf_def)
next
  case (Cons c cs)
  have "indexOf_from (Suc 0) cs pat \<noteq> 0"
    using indexOf_from_ge [of "Suc 0" cs pat] by auto
  with Cons show ?thesis by (simp add: indexOf_def)
qed

lemma indexOf_from_found:
  "indexOf_from i s pat > - 1 \<longleftrightarrow> (\<exists>pre post. s = pre @ pat @ post)"
proof (induction i s pat rule: indexOf_from.induct)
  case (1 i pat)
  then show ?case by auto
next
  case (2 i c cs pat)
  show ?case
  proof (cases "startsWith (c # cs) pat")
    case True
    then obtain rest where "c # cs = pat @ rest"
      by (auto simp: startsWith_iff)
    then have "c # cs = [] @ pat @ rest" by simp
    then have "\<exists>pre post. c # cs = pre @ pat @ post" by blast
    moreover have "indexOf_from i (c # cs) pat = int i"
      using True by simp
    ultimately show ?thesis by simp
  next
    case False
    have "(\<exists>pre post. c # cs = pre @ pat @ post) \<longleftrightarrow> (\<exists>pre post. cs = pre @ pat @ post)"
    proof
      assume "\<exists>pre post. c # cs = pre @ pat @ post"
      then obtain pre post where eq: "c # cs = pre @ pat @ post" by blast
      show "\<exists>pre post. cs = pre @ pat @ post"
      proof (cases pre)
        case Nil
        with eq False show ?thesis by (auto simp: startsWith_iff)
      next
        case (Cons a pre')
        with eq show ?thesis by auto
      qed
    next
      assume "\<exists>pre post. cs = pre @ pat @ post"
      then obtain pre post where "cs = pre @ pat @ post" by blast
      then have "c # cs = (c # pre) @ pat @ post" by simp
      then show "\<exists>pre post. c # cs = pre @ pat @ post" by blast
    qed
    with False 2 show ?thesis by simp
  qed
qed

lemma contains_iff: "contains s pat \<longleftrightarrow> (\<exists>pre post. s = pre @ pat @ post)"
  by (simp add: contains_def indexOf_def indexOf_from_found)

lemma nonBlank_iff: "nonBlank line \<longleftrightarrow> (\<exists>c \<in> set line. \<not> isWhiteSpace c)"
proof -
  have "nonBlank line \<longleftrightarrow> filter (\<lambda>c. \<not> isWhiteSpace c) line \<noteq> []"
    by (simp add: nonBlank_def match_nonspace_def split: list.splits)
  then show ?thesis by (simp add: filter_empty_conv)
qed

lemma split_on_nonempty: "split_on sep s \<noteq> []"
  by (induction sep s rule: split_on.induct) (auto split: list.splits)

lemma split_on_no_sep: "l \<in> set (split_on sep s) \<Longrightarrow> sep \<notin> set l"
proof (induction sep s arbitrary: l rule: split_on.induct)
  case (1 sep)
  then show ?case by simp
next
  case (2 sep c cs)
  show ?case
  proof (cases "c = sep")
    case True
    with 2 show ?thesis by auto
  next
    case False
    obtain w ws where ws: "split_on sep cs = w # ws"
      using split_on_nonempty [of sep cs] by (cases "split_on sep cs") auto
    with False "2.prems" have "l = c # w \<or> l \<in> set ws" by simp
    then show ?thesis
      using "2.IH"(2) [OF False] ws False by auto
  qed
qed

lemma split_on_single: "sep \<notin> set s \<Longrightarrow> split_on sep s = [s]"
  by (induction sep s rule: split_on.induct) auto

text \<open>
  The pieces of \<^verbatim>\<open>split\<close> are the lines of the text: splitting the lines joined with the
  separator gives the lines back.
\<close>

lemma split_on_line_then_sep:
  "sep \<notin> set l \<Longrightarrow> split_on sep (l @ sep # rest) = l # split_on sep rest"
  by (induction l) auto

lemma split_on_join:
  "ls \<noteq> [] \<Longrightarrow> \<forall>l \<in> set ls. sep \<notin> set l \<Longrightarrow> split_on sep (join [sep] ls) = ls"
proof (induction "[sep]" ls rule: join.induct)
  case 1
  then show ?case by simp
next
  case (2 x)
  then show ?case by (simp add: split_on_single)
next
  case (3 x y ys)
  then show ?case by (simp add: split_on_line_then_sep)
qed

lemma concat_holds_each: "l \<in> set ls \<Longrightarrow> \<exists>pre post. concat ls = pre @ l @ post"
proof -
  assume "l \<in> set ls"
  then obtain as bs where "ls = as @ l # bs" by (auto simp: in_set_conv_decomp)
  then have "concat ls = concat as @ l @ concat bs" by simp
  then show ?thesis by blast
qed

section \<open>Facts about the matchers\<close>

text \<open>
  A lazy group commits to the first length at which the rest of the pattern matches: when
  the continuation fails after every shorter capture and succeeds after \<open>xs\<close>, the group
  captures \<open>xs\<close>.
\<close>

lemma lit_append: "lit p k (p @ rest) = k rest"
  by (induction p) simp_all

lemma lazy_group_commit:
  assumes "xs \<noteq> []"
    and "\<forall>c \<in> set xs. \<not> isLineTerminator c"
    and "\<And>ys zs. ys \<noteq> [] \<Longrightarrow> zs \<noteq> [] \<Longrightarrow> xs = ys @ zs \<Longrightarrow> k (captured @ ys) (zs @ rest) = None"
    and "k (captured @ xs) rest = Some r"
  shows "lazy_group k captured (xs @ rest) = Some r"
  using assms
proof (induction xs arbitrary: captured)
  case Nil
  then show ?case by simp
next
  case (Cons c cs)
  show ?case
  proof (cases "cs = []")
    case True
    with Cons.prems show ?thesis by simp
  next
    case False
    have first: "k (captured @ [c]) (cs @ rest) = None"
      using Cons.prems(3) [of "[c]" cs] False by simp
    have later: "k ((captured @ [c]) @ ys) (zs @ rest) = None"
      if "ys \<noteq> []" "zs \<noteq> []" "cs = ys @ zs" for ys zs
      using Cons.prems(3) [of "c # ys" zs] that by simp
    have "lazy_group k (captured @ [c]) (cs @ rest) = Some r"
      using Cons.IH [of "captured @ [c]"] False Cons.prems(2,4) later by simp
    with first Cons.prems(2) show ?thesis by simp
  qed
qed

lemma search_hit: "inp \<noteq> [] \<Longrightarrow> m inp = Some r \<Longrightarrow> search m inp = Some r"
  by (cases inp) simp_all

text \<open>
  A line \<^verbatim>\<open><id> <version> "<name>"\<close> whose id and version have no space gives its three
  parts, and an entry \<^verbatim>\<open><id> <version>\<close> whose id has no space gives its two parts.
\<close>

lemma plugin_match_pattern:
  assumes "ident \<noteq> []" "ver \<noteq> []" "nm \<noteq> []"
    and "CHR '' '' \<notin> set ident" "CHR '' '' \<notin> set ver"
    and "\<forall>c \<in> set (ident @ ver @ nm). \<not> isLineTerminator c"
  shows \<open>plugin_match (ident @ '' '' @ ver @ '' "'' @ nm @ ''"'') = Some (ident, ver, nm)\<close>
proof -
  let ?k3 = \<open>\<lambda>g1 g2 g3. lit ''"'' (at_end (g1, g2, g3))\<close>
  let ?k2 = \<open>\<lambda>g1 g2. lit '' "'' (lazy_group (?k3 g1 g2) [])\<close>
  let ?k1 = \<open>\<lambda>g1. lit '' '' (lazy_group (?k2 g1) [])\<close>
  have g3: \<open>lazy_group (?k3 ident ver) [] (nm @ ''"'') = Some (ident, ver, nm)\<close>
  proof (rule lazy_group_commit)
    show "nm \<noteq> []" by fact
    show "\<forall>c \<in> set nm. \<not> isLineTerminator c" using assms(6) by simp
    show \<open>?k3 ident ver ([] @ ys) (zs @ ''"'') = None\<close> if "zs \<noteq> []" for ys zs
      using that by (cases zs) (simp_all add: at_end_def)
    show \<open>?k3 ident ver ([] @ nm) ''"'' = Some (ident, ver, nm)\<close>
      by (simp add: at_end_def)
  qed
  have g2: \<open>lazy_group (?k2 ident) [] (ver @ '' "'' @ nm @ ''"'') = Some (ident, ver, nm)\<close>
  proof (rule lazy_group_commit)
    show "ver \<noteq> []" by fact
    show "\<forall>c \<in> set ver. \<not> isLineTerminator c" using assms(6) by simp
    show \<open>?k2 ident ([] @ ys) (zs @ '' "'' @ nm @ ''"'') = None\<close>
      if "zs \<noteq> []" "ver = ys @ zs" for ys zs
      using that assms(5) by (cases zs) auto
    show \<open>?k2 ident ([] @ ver) ('' "'' @ nm @ ''"'') = Some (ident, ver, nm)\<close>
      using g3 by simp
  qed
  have g1: \<open>lazy_group ?k1 [] (ident @ '' '' @ ver @ '' "'' @ nm @ ''"'') = Some (ident, ver, nm)\<close>
  proof (rule lazy_group_commit)
    show "ident \<noteq> []" by fact
    show "\<forall>c \<in> set ident. \<not> isLineTerminator c" using assms(6) by simp
    show \<open>?k1 ([] @ ys) (zs @ '' '' @ ver @ '' "'' @ nm @ ''"'') = None\<close>
      if "zs \<noteq> []" "ident = ys @ zs" for ys zs
      using that assms(4) by (cases zs) auto
    show \<open>?k1 ([] @ ident) ('' '' @ ver @ '' "'' @ nm @ ''"'') = Some (ident, ver, nm)\<close>
      using g2 by simp
  qed
  show ?thesis
    unfolding plugin_match_def using assms(1) by (intro search_hit g1) simp
qed

lemma platform_match_pattern:
  assumes "ident \<noteq> []" "ver \<noteq> []"
    and "CHR '' '' \<notin> set ident"
    and "\<forall>c \<in> set (ident @ ver). \<not> isLineTerminator c"
  shows "platform_match (ident @ '' '' @ ver) = Some (ident, ver)"
proof -
  let ?k2 = "\<lambda>g1 g2. at_end (g1, g2)"
  let ?k1 = "\<lambda>g1. lit '' '' (lazy_group (?k2 g1) [])"
  have g2: "lazy_group (?k2 ident) [] (ver @ []) = Some (ident, ver)"
  proof (rule lazy_group_commit)
    show "ver \<noteq> []" by fact
    show "\<forall>c \<in> set ver. \<not> isLineTerminator c" using assms(4) by simp
    show "?k2 ident ([] @ ys) (zs @ []) = None" if "zs \<noteq> []" for ys zs
      using that by (simp add: at_end_def)
    show "?k2 ident ([] @ ver) [] = Some (ident, ver)"
      by (simp add: at_end_def)
  qed
  have g1: "lazy_group ?k1 [] (ident @ '' '' @ ver) = Some (ident, ver)"
  proof (rule lazy_group_commit)
    show "ident \<noteq> []" by fact
    show "\<forall>c \<in> set ident. \<not> isLineTerminator c" using assms(4) by simp
    show "?k1 ([] @ ys) (zs @ '' '' @ ver) = None"
      if "zs \<noteq> []" "ident = ys @ zs" for ys zs
      using that assms(3) by (cases zs) auto
    show "?k1 ([] @ ident) ('' '' @ ver) = Some (ident, ver)"
      using g2 by simp
  qed
  show ?thesis
    unfolding platform_match_def using assms(1) by (intro search_hit g1) simp
qed

section \<open>Flags on the command line\<close>

text \<open>
  The switches: each command line is its command followed by the flags of the requested
  options, once each, in one fixed order.
\<close>

lemma boolean_flags_exact:
  "removePlugin_cmd pluginId ropts
     = with_flags (''cordova plugin remove '' @ pluginId)
         (flags [(requested ComponentRemoveOptions.save ropts, ''--save'')])"
  "removePlatform_cmd pf ropts
     = with_flags (''cordova platform remove '' @ pf)
         (flags [(requested ComponentRemoveOptions.save ropts, ''--save'')])"
  "addPlatform_cmd spec popts
     = with_flags (''cordova platform add '' @ spec)
         (flags [(requested useGit popts, ''--usegit''),
                 (requested PlatformAddOptions.save popts, ''--save''),
                 (requested PlatformAddOptions.link popts, ''--link'')])"
  "update_cmd pfo popts
     = with_flags (''cordova platform update''
                     @ (if truthy_string pfo then '' '' @ the pfo else []))
         (flags [(requested useGit popts, ''--usegit''),
                 (requested PlatformAddOptions.save popts, ''--save'')])"
  by (simp_all add: removePlugin_cmd_def removePlatform_cmd_def addPlatform_cmd_def
        update_cmd_def with_flags_def flags_def requested_def Let_def split: option.split)

lemma addPlugin_flags_exact:
  \<open>addPlugin_cmd h spec None = ''cordova plugin add '' @ spec\<close>
  \<open>addPlugin_cmd h spec (Some opts)
     = with_flags (''cordova plugin add '' @ spec
                     @ (if truthy_array (searchPaths opts)
                        then '' --searchpath "''
                               @ join (if isWindows h then '';'' else '':'') (the (searchPaths opts))
                        else []))
         (flags [(truthy_bool (noRegistry opts), ''--noregistry''),
                 (truthy_bool (PluginAddOptions.link opts), ''--link''),
                 (truthy_bool (PluginAddOptions.save opts), ''--save''),
                 (truthy_bool (shrinkwrap opts), ''--shrinkwrap''),
                 (truthy_bool (experimentalBrowserify opts), ''--browserify'')])\<close>
  by (simp_all add: addPlugin_cmd_def with_flags_def flags_def Let_def)

text \<open>
  Claim C2, at the options \<^verbatim>\<open>{ searchPaths: ['a', 'b'] }\<close>. The flag
  \<^verbatim>\<open>--searchpath\<close> is followed by a double quote and the joined paths, and the quote is
  never closed: the argument that reaches the tool after the flag is \<^verbatim>\<open>"a:b\<close> (with
  \<^verbatim>\<open>;\<close> on Windows), not the joined paths.
\<close>

theorem addPlugin_searchpath_quote_left_open:
  \<open>addPlugin_cmd linux_full ''x'' (Some sample_paths) = ''cordova plugin add x --searchpath "a:b''
   \<and> addPlugin_cmd win32_full ''x'' (Some sample_paths) = ''cordova plugin add x --searchpath "a;b''
   \<and> addPlugin_spawn linux_full \<lparr> path = ''/proj'' \<rparr> ''x'' (Some sample_paths)
       = Some \<lparr> program = ''cordova'',
                arguments = [''plugin'', ''add'', ''x'', ''--searchpath'', ''"a:b''],
                spawn_cwd = ''/proj'' \<rparr>
   \<and> ''"a:b'' \<noteq> join '':'' [''a'', ''b'']\<close>
  by code_simp

section \<open>The plugin list\<close>

lemma foldl_getPlugins_item:
  "foldl getPlugins_item acc ls
     = acc @ map (the \<circ> plugin_of_line) (filter (\<lambda>l. plugin_match l \<noteq> None) ls)"
  by (induction ls arbitrary: acc)
     (auto simp: getPlugins_item_def plugin_of_line_def split: option.splits)

text \<open>
  Claim C3. \<^verbatim>\<open>getPlugins\<close> returns one record for each line that matches the pattern,
  in the order of the lines, and none for the other lines: for every text, over the pieces
  of its split, and for every list of lines without a newline, over those lines, whose join
  with newlines the split gives back. A line \<^verbatim>\<open><id> <version> "<name>"\<close> (id and version
  without a space, no part empty) gives the record of its three parts; the line
  \<^verbatim>\<open>cordova-plugin-camera 2.1.0 "Camera"\<close> gives the record of the claim; an output of
  two plugin lines around another line gives the two records in order; an output with no
  matching line gives the empty list.
\<close>

theorem getPlugins_one_record_per_matching_line:
  \<open>getPlugins_parse out
     = map (the \<circ> plugin_of_line)
         (filter (\<lambda>l. plugin_match l \<noteq> None) (split_on (CHR 0x0A) out))
   \<and> (ls \<noteq> [] \<and> (\<forall>l \<in> set ls. CHR 0x0A \<notin> set l)
      \<longrightarrow> split_on (CHR 0x0A) (join [CHR 0x0A] ls) = ls
          \<and> getPlugins_parse (join [CHR 0x0A] ls)
              = map (the \<circ> plugin_of_line) (filter (\<lambda>l. plugin_match l \<noteq> None) ls))
   \<and> (ident \<noteq> [] \<and> ver \<noteq> [] \<and> nm \<noteq> [] \<and> CHR '' '' \<notin> set ident \<and> CHR '' '' \<notin> set ver
        \<and> (\<forall>c \<in> set (ident @ ver @ nm). \<not> isLineTerminator c)
      \<longrightarrow> getPlugins_parse (ident @ '' '' @ ver @ '' "'' @ nm @ ''"'')
            = [\<lparr> CordovaPluginInfo.id' = ident, CordovaPluginInfo.version = ver, name' = nm \<rparr>])
   \<and> getPlugins_parse ''cordova-plugin-camera 2.1.0 "Camera"''
       = [\<lparr> CordovaPluginInfo.id' = ''cordova-plugin-camera'',
            CordovaPluginInfo.version = ''2.1.0'', name' = ''Camera'' \<rparr>]
   \<and> getPlugins_parse ''a 1 "A"\<newline>No such line\<newline>b 2 "B"\<newline>''
       = [\<lparr> CordovaPluginInfo.id' = ''a'', CordovaPluginInfo.version = ''1'', name' = ''A'' \<rparr>,
          \<lparr> CordovaPluginInfo.id' = ''b'', CordovaPluginInfo.version = ''2'', name' = ''B'' \<rparr>]
   \<and> ((\<forall>l \<in> set (split_on (CHR 0x0A) out). plugin_match l = None)
      \<longrightarrow> getPlugins_parse out = [])\<close>
proof (intro conjI impI)
  show general: \<open>getPlugins_parse out
     = map (the \<circ> plugin_of_line)
         (filter (\<lambda>l. plugin_match l \<noteq> None) (split_on (CHR 0x0A) out))\<close>
    by (simp add: getPlugins_parse_def foldl_getPlugins_item)
  show "getPlugins_parse out = []"
    if "\<forall>l \<in> set (split_on (CHR 0x0A) out). plugin_match l = None"
    using that by (simp add: getPlugins_parse_def foldl_getPlugins_item filter_empty_conv)
  show \<open>getPlugins_parse ''cordova-plugin-camera 2.1.0 "Camera"''
       = [\<lparr> CordovaPluginInfo.id' = ''cordova-plugin-camera'',
            CordovaPluginInfo.version = ''2.1.0'', name' = ''Camera'' \<rparr>]\<close>
    by code_simp
  show \<open>getPlugins_parse ''a 1 "A"\<newline>No such line\<newline>b 2 "B"\<newline>''
       = [\<lparr> CordovaPluginInfo.id' = ''a'', CordovaPluginInfo.version = ''1'', name' = ''A'' \<rparr>,
          \<lparr> CordovaPluginInfo.id' = ''b'', CordovaPluginInfo.version = ''2'', name' = ''B'' \<rparr>]\<close>
    by code_simp
  show "split_on (CHR 0x0A) (join [CHR 0x0A] ls) = ls"
    if "ls \<noteq> [] \<and> (\<forall>l \<in> set ls. CHR 0x0A \<notin> set l)"
    using that by (simp add: split_on_join)
  show "getPlugins_parse (join [CHR 0x0A] ls)
          = map (the \<circ> plugin_of_line) (filter (\<lambda>l. plugin_match l \<noteq> None) ls)"
    if "ls \<noteq> [] \<and> (\<forall>l \<in> set ls. CHR 0x0A \<notin> set l)"
    using that by (simp add: getPlugins_parse_def foldl_getPlugins_item split_on_join)
  show \<open>getPlugins_parse (ident @ '' '' @ ver @ '' "'' @ nm @ ''"'')
            = [\<lparr> CordovaPluginInfo.id' = ident, CordovaPluginInfo.version = ver, name' = nm \<rparr>]\<close>
    if shape: \<open>ident \<noteq> [] \<and> ver \<noteq> [] \<and> nm \<noteq> [] \<and> CHR '' '' \<notin> set ident \<and> CHR '' '' \<notin> set ver
        \<and> (\<forall>c \<in> set (ident @ ver @ nm). \<not> isLineTerminator c)\<close>
  proof -
    let ?line = \<open>ident @ '' '' @ ver @ '' "'' @ nm @ ''"''\<close>
    have "CHR 0x0A \<notin> set ?line"
      using shape by (auto simp: isLineTerminator_def)
    then have one: "split_on (CHR 0x0A) ?line = [?line]"
      by (rule split_on_single)
    have "plugin_match ?line = Some (ident, ver, nm)"
      using shape by (intro plugin_match_pattern) simp_all
    then show ?thesis
      by (simp only: getPlugins_parse_def one foldl.simps getPlugins_item_def option.case
            prod.case append_Nil)
  qed
qed

theorem getPlugins_one_record_per_matching_line_witness:
  \<open>getPlugins_parse ''No plugins added.\<newline>'' = []
   \<and> getPlugins_parse ''org.x 1.0 "X Y"''
       = [\<lparr> CordovaPluginInfo.id' = ''org.x'', CordovaPluginInfo.version = ''1.0'', name' = ''X Y'' \<rparr>]
   \<and> split_on (CHR 0x0A) ''org.x 1.0 "X Y"\<newline>Another line\<newline>org.z 0.3.1 "Z"\<newline>org.w 2 "W"\<newline>''
       = [''org.x 1.0 "X Y"'', ''Another line'', ''org.z 0.3.1 "Z"'', ''org.w 2 "W"'', []]
   \<and> getPlugins_parse ''org.x 1.0 "X Y"\<newline>Another line\<newline>org.z 0.3.1 "Z"\<newline>org.w 2 "W"\<newline>''
       = [\<lparr> CordovaPluginInfo.id' = ''org.x'', CordovaPluginInfo.version = ''1.0'', name' = ''X Y'' \<rparr>,
          \<lparr> CordovaPluginInfo.id' = ''org.z'', CordovaPluginInfo.version = ''0.3.1'', name' = ''Z'' \<rparr>,
          \<lparr> CordovaPluginInfo.id' = ''org.w'', CordovaPluginInfo.version = ''2'', name' = ''W'' \<rparr>]\<close>
proof -
  let ?ls = \<open>[''org.x 1.0 "X Y"'', ''Another line'', ''org.z 0.3.1 "Z"'', ''org.w 2 "W"'', []]\<close>
  have none: \<open>\<forall>l \<in> set (split_on (CHR 0x0A) ''No plugins added.\<newline>''). plugin_match l = None\<close>
    by code_simp
  have clean: \<open>\<forall>c \<in> set (''org.x'' @ ''1.0'' @ ''X Y''). \<not> isLineTerminator c\<close>
    by (simp add: isLineTerminator_def)
  have lines: \<open>?ls \<noteq> [] \<and> (\<forall>l \<in> set ?ls. CHR 0x0A \<notin> set l)\<close>
    by simp
  have joined: \<open>join [CHR 0x0A] ?ls
      = ''org.x 1.0 "X Y"\<newline>Another line\<newline>org.z 0.3.1 "Z"\<newline>org.w 2 "W"\<newline>''\<close>
    by simp
  have records: \<open>map (the \<circ> plugin_of_line) (filter (\<lambda>l. plugin_match l \<noteq> None) ?ls)
       = [\<lparr> CordovaPluginInfo.id' = ''org.x'', CordovaPluginInfo.version = ''1.0'', name' = ''X Y'' \<rparr>,
          \<lparr> CordovaPluginInfo.id' = ''org.z'', CordovaPluginInfo.version = ''0.3.1'', name' = ''Z'' \<rparr>,
          \<lparr> CordovaPluginInfo.id' = ''org.w'', CordovaPluginInfo.version = ''2'', name' = ''W'' \<rparr>]\<close>
    by code_simp
  have first: \<open>getPlugins_parse ''No plugins added.\<newline>'' = []
     \<and> getPlugins_parse ''org.x 1.0 "X Y"''
       = [\<lparr> CordovaPluginInfo.id' = ''org.x'', CordovaPluginInfo.version = ''1.0'', name' = ''X Y'' \<rparr>]\<close>
    using none clean
      getPlugins_one_record_per_matching_line
        [of "''No plugins added.\<newline>''" ?ls "''org.x''" "''1.0''" "''X Y''"]
    by simp
  have second: \<open>split_on (CHR 0x0A) (join [CHR 0x0A] ?ls) = ?ls
     \<and> getPlugins_parse (join [CHR 0x0A] ?ls)
         = map (the \<circ> plugin_of_line) (filter (\<lambda>l. plugin_match l \<noteq> None) ?ls)\<close>
    using lines
      getPlugins_one_record_per_matching_line
        [of "''No plugins added.\<newline>''" ?ls "''org.x''" "''1.0''" "''X Y''"]
    by blast
  show ?thesis
    using first second by (simp only: joined records)
qed

section \<open>The platform list\<close>

lemma foldl_getPlatforms_pair:
  "foldl getPlatforms_pair acc ps
     = acc @ map (the \<circ> platform_of_entry)
               (filter (\<lambda>e. platform_match e \<noteq> None) (map trim ps))"
  by (induction ps arbitrary: acc)
     (auto simp: getPlatforms_pair_def platform_of_entry_def split: option.splits)

lemma foldl_getPlatforms_line:
  "foldl getPlatforms_line acc ls
     = acc @ map (the \<circ> platform_of_entry)
               (filter (\<lambda>e. platform_match e \<noteq> None)
                  (concat (map platform_entries
                     (filter (\<lambda>l. startsWith l ''Installed platforms: '') ls))))"
proof (induction ls arbitrary: acc)
  case Nil
  then show ?case by simp
next
  case (Cons l ls)
  show ?case
  proof (cases "startsWith l ''Installed platforms: ''")
    case True
    then have "getPlatforms_line acc l
        = acc @ map (the \<circ> platform_of_entry)
                  (filter (\<lambda>e. platform_match e \<noteq> None) (platform_entries l))"
      by (simp only: getPlatforms_line_def Let_def indexOf_zero_iff if_True
            foldl_getPlatforms_pair platform_entries_def)
    with True show ?thesis by (simp add: Cons.IH)
  next
    case False
    then have "getPlatforms_line acc l = acc"
      by (simp only: getPlatforms_line_def Let_def indexOf_zero_iff if_False)
    with False show ?thesis by (simp add: Cons.IH)
  qed
qed

text \<open>
  Claim C4. \<^verbatim>\<open>getPlatforms\<close> takes the lines that begin with
  \<^verbatim>\<open>Installed platforms: \<close>, splits what follows on commas, trims each entry and keeps
  the record of each entry that parses as \<^verbatim>\<open><id> <version>\<close>, in order (an entry
  whose id has no space gives its two parts); the line
  \<^verbatim>\<open>Installed platforms: android 6.0.0, ios 4.3.0\<close> gives android 6.0.0 and then
  ios 4.3.0.
\<close>

theorem getPlatforms_installed_line:
  "getPlatforms_parse out
     = map (the \<circ> platform_of_entry)
         (filter (\<lambda>e. platform_match e \<noteq> None)
            (concat (map platform_entries
               (filter (\<lambda>l. startsWith l ''Installed platforms: '') (split_on (CHR 0x0A) out)))))
   \<and> (ident \<noteq> [] \<and> ver \<noteq> [] \<and> CHR '' '' \<notin> set ident
        \<and> (\<forall>c \<in> set (ident @ ver). \<not> isLineTerminator c)
      \<longrightarrow> platform_of_entry (ident @ '' '' @ ver)
            = Some \<lparr> CordovaPlatformInfo.id' = ident, CordovaPlatformInfo.version = ver \<rparr>)
   \<and> getPlatforms_parse ''Installed platforms: android 6.0.0, ios 4.3.0''
       = [\<lparr> CordovaPlatformInfo.id' = ''android'', CordovaPlatformInfo.version = ''6.0.0'' \<rparr>,
          \<lparr> CordovaPlatformInfo.id' = ''ios'', CordovaPlatformInfo.version = ''4.3.0'' \<rparr>]"
proof (intro conjI impI)
  show "getPlatforms_parse out
     = map (the \<circ> platform_of_entry)
         (filter (\<lambda>e. platform_match e \<noteq> None)
            (concat (map platform_entries
               (filter (\<lambda>l. startsWith l ''Installed platforms: '') (split_on (CHR 0x0A) out)))))"
    by (simp add: getPlatforms_parse_def foldl_getPlatforms_line)
  show "getPlatforms_parse ''Installed platforms: android 6.0.0, ios 4.3.0''
       = [\<lparr> CordovaPlatformInfo.id' = ''android'', CordovaPlatformInfo.version = ''6.0.0'' \<rparr>,
          \<lparr> CordovaPlatformInfo.id' = ''ios'', CordovaPlatformInfo.version = ''4.3.0'' \<rparr>]"
    by code_simp
  show "platform_of_entry (ident @ '' '' @ ver)
            = Some \<lparr> CordovaPlatformInfo.id' = ident, CordovaPlatformInfo.version = ver \<rparr>"
    if "ident \<noteq> [] \<and> ver \<noteq> [] \<and> CHR '' '' \<notin> set ident
        \<and> (\<forall>c \<in> set (ident @ ver). \<not> isLineTerminator c)"
    using that platform_match_pattern [of ident ver] by (simp add: platform_of_entry_def)
qed

theorem getPlatforms_installed_line_witness:
  "platform_of_entry ''android 6.0.0''
       = Some \<lparr> CordovaPlatformInfo.id' = ''android'', CordovaPlatformInfo.version = ''6.0.0'' \<rparr>
   \<and> getPlatforms_parse
        ''Available platforms: a 1\<newline>Installed platforms: android 6.0.0,  browser 4.1.0 ,\<newline>''
       = [\<lparr> CordovaPlatformInfo.id' = ''android'', CordovaPlatformInfo.version = ''6.0.0'' \<rparr>,
          \<lparr> CordovaPlatformInfo.id' = ''browser'', CordovaPlatformInfo.version = ''4.1.0'' \<rparr>]"
proof -
  have clean: "\<forall>c \<in> set (''android'' @ ''6.0.0''). \<not> isLineTerminator c"
    by (simp add: isLineTerminator_def)
  have run: "map (the \<circ> platform_of_entry)
         (filter (\<lambda>e. platform_match e \<noteq> None)
            (concat (map platform_entries
               (filter (\<lambda>l. startsWith l ''Installed platforms: '')
                  (split_on (CHR 0x0A)
                     ''Available platforms: a 1\<newline>Installed platforms: android 6.0.0,  browser 4.1.0 ,\<newline>'')))))
       = [\<lparr> CordovaPlatformInfo.id' = ''android'', CordovaPlatformInfo.version = ''6.0.0'' \<rparr>,
          \<lparr> CordovaPlatformInfo.id' = ''browser'', CordovaPlatformInfo.version = ''4.1.0'' \<rparr>]"
    by code_simp
  show ?thesis
    using clean run
      getPlatforms_installed_line
        [of "''Available platforms: a 1\<newline>Installed platforms: android 6.0.0,  browser 4.1.0 ,\<newline>''"
            "''android''" "''6.0.0''"]
    by simp
qed

section \<open>The project information\<close>

lemma getInfo_loop1_eq:
  "getInfo_loop1 lines i xml =
     (i + length (takeWhile (\<lambda>l. \<not> contains l ''</widget>'') (drop i lines)),
      xml @ concat (consumed_lines (drop i lines)))"
proof (induction lines i xml rule: getInfo_loop1.induct)
  case (1 lines i xml)
  show ?case
  proof (cases "i < length lines")
    case False
    then show ?thesis
      by (subst getInfo_loop1.simps) (simp add: consumed_lines_def)
  next
    case True
    then have split: "drop i lines = lines ! i # drop (Suc i) lines"
      by (simp add: Cons_nth_drop_Suc)
    show ?thesis
    proof (cases "contains (lines ! i) ''</widget>''")
      case True
      with \<open>i < length lines\<close> split show ?thesis
        by (subst getInfo_loop1.simps) (simp add: consumed_lines_def contains_def)
    next
      case False
      with \<open>i < length lines\<close> have
        "getInfo_loop1 lines i xml = getInfo_loop1 lines (i + 1) (xml @ lines ! i)"
        by (subst getInfo_loop1.simps) (simp add: contains_def)
      also have "\<dots> = (i + 1 + length (takeWhile (\<lambda>l. \<not> contains l ''</widget>'')
                                        (drop (i + 1) lines)),
                       (xml @ lines ! i) @ concat (consumed_lines (drop (i + 1) lines)))"
        using "1.IH" [OF \<open>i < length lines\<close> refl] False by (simp add: contains_def)
      finally show ?thesis
        using False split by (simp add: consumed_lines_def)
    qed
  qed
qed

lemma getInfo_loop2_eq:
  "getInfo_loop2 lines i looking enumerating plugins =
     (if looking
      then plugins @ filter nonBlank
             (drop 1 (dropWhile (\<lambda>l. \<not> contains l ''Plugins:'') (drop i lines)))
      else if enumerating then plugins @ filter nonBlank (drop i lines)
      else plugins)"
proof (induction lines i looking enumerating plugins rule: getInfo_loop2.induct)
  case (1 lines i looking enumerating plugins)
  show ?case
  proof (cases "i < length lines")
    case False
    then show ?thesis
      by (subst getInfo_loop2.simps) simp
  next
    case inside: True
    then have split: "drop i lines = lines ! i # drop (Suc i) lines"
      by (simp add: Cons_nth_drop_Suc)
    consider (found) "looking" "indexOf (lines ! i) ''Plugins:'' > - 1"
      | (seek) "looking" "\<not> indexOf (lines ! i) ''Plugins:'' > - 1"
      | (push) "\<not> looking" "enumerating" "match_nonspace (lines ! i) \<noteq> None"
      | (skip) "\<not> looking" "enumerating" "\<not> match_nonspace (lines ! i) \<noteq> None"
      | (idle) "\<not> looking" "\<not> enumerating"
      by blast
    then show ?thesis
    proof cases
      case found
      have "getInfo_loop2 lines i looking enumerating plugins
              = getInfo_loop2 lines (i + 1) False True plugins"
        using inside found by (subst getInfo_loop2.simps) simp
      then show ?thesis
        using "1.IH"(1) [OF inside found] found split by (simp add: contains_def)
    next
      case seek
      have "getInfo_loop2 lines i looking enumerating plugins
              = getInfo_loop2 lines (i + 1) looking enumerating plugins"
        using inside seek by (subst getInfo_loop2.simps) simp
      then show ?thesis
        using "1.IH"(2) [OF inside seek] seek split by (simp add: contains_def)
    next
      case push
      have "getInfo_loop2 lines i looking enumerating plugins
              = getInfo_loop2 lines (i + 1) looking enumerating (plugins @ [lines ! i])"
        using inside push by (subst getInfo_loop2.simps) simp
      then show ?thesis
        using "1.IH"(3) [OF inside push] push split by (simp add: nonBlank_def)
    next
      case skip
      have "getInfo_loop2 lines i looking enumerating plugins
              = getInfo_loop2 lines (i + 1) looking enumerating plugins"
        using inside skip by (subst getInfo_loop2.simps) simp
      then show ?thesis
        using "1.IH"(4) [OF inside skip] skip split by (simp add: nonBlank_def)
    next
      case idle
      have "getInfo_loop2 lines i looking enumerating plugins
              = getInfo_loop2 lines (i + 1) looking enumerating plugins"
        using inside idle by (subst getInfo_loop2.simps) simp
      then show ?thesis
        using "1.IH"(5) [OF inside idle] idle by simp
    qed
  qed
qed

lemma getInfo_parse_eq:
  "getInfo_parse out =
     \<lparr> config = concat (consumed_lines (split_on (CHR 0x0A) out)),
       pluginNames = filter nonBlank (plugin_section (split_on (CHR 0x0A) out)) \<rparr>"
  by (simp add: getInfo_parse_def Let_def getInfo_loop1_eq getInfo_loop2_eq plugin_section_def
        dropWhile_eq_drop [symmetric])

text \<open>
  Claim C5. \<^verbatim>\<open>getInfo\<close> works in two passes: the configuration is made of every line
  up to and including the first line that contains \<^verbatim>\<open></widget>\<close>, and the plugin names
  are the non-blank lines after the first line, at or after that one, that contains
  \<^verbatim>\<open>Plugins:\<close>, in order. An output that ends in
  \<^verbatim>\<open></widget>\<close>, \<^verbatim>\<open>Plugins:\<close>, \<^verbatim>\<open>plugin-a\<close>, \<^verbatim>\<open>plugin-b\<close> gives the two plugin names.
\<close>

theorem getInfo_two_passes:
  "getInfo_parse out
     = \<lparr> config = concat (consumed_lines (split_on (CHR 0x0A) out)),
         pluginNames = filter nonBlank (plugin_section (split_on (CHR 0x0A) out)) \<rparr>
   \<and> getInfo_parse
        ''<widget id=x>\<newline> <name>App</name>\<newline></widget>\<newline>Plugins:\<newline>plugin-a\<newline>plugin-b\<newline>''
       = \<lparr> config = ''<widget id=x> <name>App</name></widget>'',
           pluginNames = [''plugin-a'', ''plugin-b''] \<rparr>"
proof
  show "getInfo_parse out
     = \<lparr> config = concat (consumed_lines (split_on (CHR 0x0A) out)),
         pluginNames = filter nonBlank (plugin_section (split_on (CHR 0x0A) out)) \<rparr>"
    by (rule getInfo_parse_eq)
  show "getInfo_parse
        ''<widget id=x>\<newline> <name>App</name>\<newline></widget>\<newline>Plugins:\<newline>plugin-a\<newline>plugin-b\<newline>''
       = \<lparr> config = ''<widget id=x> <name>App</name></widget>'',
           pluginNames = [''plugin-a'', ''plugin-b''] \<rparr>"
    by code_simp
qed

text \<open>
  Claim C9. When no line contains \<^verbatim>\<open></widget>\<close>, the configuration is the
  concatenation of all lines and there are no plugin names, also when a line with
  \<^verbatim>\<open>Plugins:\<close> is followed by non-blank lines: the second pass starts where the first
  one stopped, at the end.
\<close>

theorem getInfo_without_closing_tag:
  assumes "\<forall>l \<in> set (split_on (CHR 0x0A) out). \<not> contains l ''</widget>''"
  shows "getInfo_parse out = \<lparr> config = concat (split_on (CHR 0x0A) out), pluginNames = [] \<rparr>"
proof -
  have kept: "takeWhile (\<lambda>l. \<not> contains l ''</widget>'') (split_on (CHR 0x0A) out)
          = split_on (CHR 0x0A) out"
    using assms by (simp add: takeWhile_eq_all_conv)
  have left: "dropWhile (\<lambda>l. \<not> contains l ''</widget>'') (split_on (CHR 0x0A) out) = []"
    using assms by simp
  show ?thesis
    by (simp only: getInfo_parse_eq consumed_lines_def plugin_section_def kept left)
       simp
qed

theorem getInfo_without_closing_tag_witness:
  "getInfo_parse ''<widget>\<newline>Plugins:\<newline>plugin-a\<newline>plugin-b''
       = \<lparr> config = ''<widget>Plugins:plugin-aplugin-b'', pluginNames = [] \<rparr>"
proof -
  have absent: "\<forall>l \<in> set (split_on (CHR 0x0A) ''<widget>\<newline>Plugins:\<newline>plugin-a\<newline>plugin-b'').
      \<not> contains l ''</widget>''"
    by code_simp
  have all: "concat (split_on (CHR 0x0A) ''<widget>\<newline>Plugins:\<newline>plugin-a\<newline>plugin-b'')
               = ''<widget>Plugins:plugin-aplugin-b''"
    by code_simp
  show ?thesis
    using absent all getInfo_without_closing_tag [OF absent] by simp
qed

text \<open>
  Claim C10. The configuration is the concatenation of the consumed lines, an initial
  part of the lines of the output, joined with nothing between them: it has no newline
  character, and each consumed line is in it as it was.
\<close>

theorem getInfo_config_has_no_newline:
  "config (getInfo_parse out) = concat (consumed_lines (split_on (CHR 0x0A) out))
   \<and> consumed_lines (split_on (CHR 0x0A) out)
       = take (length (consumed_lines (split_on (CHR 0x0A) out))) (split_on (CHR 0x0A) out)
   \<and> CHR 0x0A \<notin> set (config (getInfo_parse out))
   \<and> (\<forall>l \<in> set (consumed_lines (split_on (CHR 0x0A) out)).
         \<exists>pre post. config (getInfo_parse out) = pre @ l @ post)"
proof -
  define lines where "lines = split_on (CHR 0x0A) out"
  define n where "n = Suc (length (takeWhile (\<lambda>l. \<not> contains l ''</widget>'') lines))"
  have cfg: "config (getInfo_parse out) = concat (consumed_lines lines)"
    by (simp add: getInfo_parse_eq lines_def)
  have "take n (takeWhile (\<lambda>l. \<not> contains l ''</widget>'') lines
                 @ dropWhile (\<lambda>l. \<not> contains l ''</widget>'') lines)
          = takeWhile (\<lambda>l. \<not> contains l ''</widget>'') lines
              @ take 1 (dropWhile (\<lambda>l. \<not> contains l ''</widget>'') lines)"
    unfolding n_def by (simp only: take_append) simp
  then have consumed: "consumed_lines lines = take n lines"
    by (simp add: consumed_lines_def)
  have initial: "consumed_lines lines = take (length (consumed_lines lines)) lines"
    by (simp add: consumed min_def)
  have "set (consumed_lines lines) \<subseteq> set lines"
    by (simp add: consumed set_take_subset)
  then have "\<forall>l \<in> set (consumed_lines lines). CHR 0x0A \<notin> set l"
    using split_on_no_sep [of _ "CHR 0x0A" out] by (auto simp: lines_def)
  then have clean: "CHR 0x0A \<notin> set (concat (consumed_lines lines))"
    by simp
  have verbatim: "\<forall>l \<in> set (consumed_lines lines).
                    \<exists>pre post. concat (consumed_lines lines) = pre @ l @ post"
    by (blast intro: concat_holds_each)
  show ?thesis
    using cfg initial clean verbatim unfolding lines_def by simp
qed

theorem getInfo_config_has_no_newline_witness:
  "config (getInfo_parse ''<widget>\<newline> <name>App</name>\<newline></widget>\<newline>Plugins:\<newline>'')
     = ''<widget> <name>App</name></widget>''
   \<and> consumed_lines (split_on (CHR 0x0A) ''<widget>\<newline> <name>App</name>\<newline></widget>\<newline>Plugins:\<newline>'')
     = [''<widget>'', '' <name>App</name>'', ''</widget>'']
   \<and> CHR 0x0A \<notin> set ''<widget> <name>App</name></widget>''"
proof -
  have lines: "consumed_lines (split_on (CHR 0x0A) ''<widget>\<newline> <name>App</name>\<newline></widget>\<newline>Plugins:\<newline>'')
     = [''<widget>'', '' <name>App</name>'', ''</widget>'']"
    by code_simp
  show ?thesis
    using lines
      getInfo_config_has_no_newline [of "''<widget>\<newline> <name>App</name>\<newline></widget>\<newline>Plugins:\<newline>''"]
    by simp
qed

end
